theory Spec2Isabelle
  imports Main
begin

section \<open>Errors, numbers and strings\<close>

text \<open>
  The embedding follows the classes \<^verbatim>\<open>Machine\<close> (\<^verbatim>\<open>src/components/Machine.ts\<close>),
  \<^verbatim>\<open>Reflector\<close> (\<^verbatim>\<open>src/components/Reflector.ts\<close>) and \<^verbatim>\<open>Stator\<close>. Every
  \<^verbatim>\<open>throw\<close> of the source, and every run-time TypeError the source can provoke, is a
  constructor of \<open>error\<close>; a method that can raise returns \<open>error + 'a\<close>, and a method
  that mutates the object returns the object after the call.

  Numbers are \<open>int\<close>: every number the code handles is an array index, a length, a
  position or a step count.

  A string of the program is a list of code units, of any type \<open>'c\<close>: \<^verbatim>\<open>length\<close>,
  \<^verbatim>\<open>char[0]\<close> and \<^verbatim>\<open>split('')\<close> count and cut code units. A symbol is a
  one-unit string. \<^verbatim>\<open>String.prototype.toUpperCase\<close> belongs to the language, not to
  the repository, and is a parameter \<open>up\<close> of every function that calls it: nothing is
  assumed of it, so it may change the length of a string (as it does on \<open>\<ss>\<close>, whose
  upper-case form is \<open>SS\<close>). The labels of the components, which the code only
  tests for emptiness, are plain strings.
\<close>

datatype error =
    EmptyLabel              \<comment> \<open>TypeError of a constructor: the label is empty\<close>
  | InvalidAlphabet         \<comment> \<open>TypeError of the Machine constructor: the alphabet is empty\<close>
  | InvalidNumChars         \<comment> \<open>TypeError of a constructor: numChars is 0 or under\<close>
  | InvalidWiring           \<comment> \<open>TypeError of a constructor: the table's length is not numChars\<close>
  | NoReflector             \<comment> \<open>Error of processCharacter: no reflector installed\<close>
  | InputLength             \<comment> \<open>Error of processCharacter: input empty or longer than 1 character\<close>
  | UndefinedProperty       \<comment> \<open>run-time TypeError: a property of \<^verbatim>\<open>undefined\<close> is read\<close>
  | NotIterable             \<comment> \<open>run-time TypeError: \<^verbatim>\<open>undefined\<close> is spread into an argument list\<close>
  | NotAFunction            \<comment> \<open>run-time TypeError: a method the object does not have is called\<close>

text \<open>
  Modelled from the spec: \<^verbatim>\<open>circular\<close> of \<^verbatim>\<open>src/common\<close> is not among the sources. The
  spec (sections 4.2 and 6) gives it as circular-index normalisation: \<open>i mod N\<close>
  normalised into \<open>[0,N)\<close> for any integer \<open>i\<close>, negatives included. On \<open>int\<close>, \<open>mod\<close>
  with a positive modulus is exactly that.
\<close>

definition circular :: "int \<Rightarrow> int \<Rightarrow> int" where
  "circular i n = i mod n"

text \<open>
  Modelled from the spec: \<^verbatim>\<open>findDuplicates\<close> of \<^verbatim>\<open>src/common\<close> is not among the
  sources. The spec (sections 4.1 and 6) gives it as the duplicate finder over an array,
  returning (position, value) pairs, one per duplicate occurrence: here every position
  whose value already stands at an earlier position.
\<close>

definition findDuplicates :: "int list \<Rightarrow> (nat \<times> int) list" where
  "findDuplicates xs =
     map (\<lambda>i. (i, xs ! i)) (filter (\<lambda>i. xs ! i \<in> set (take i xs)) [0..<length xs])"

text \<open>
  Modelled from the spec: \<^verbatim>\<open>getCharacterIndex\<close> and \<^verbatim>\<open>getCharacterFromIndex\<close> of
  \<^verbatim>\<open>src/alphabet\<close> are not among the sources. The spec (sections 4.6 and 6) gives them
  as \<open>symbolToIndex(symbol, alphabet, fallbackSymbol)\<close>, which yields the fallback's
  index for a symbol outside the alphabet, and \<open>indexToSymbol(index, alphabet,
  fallbackSymbol)\<close>, which wraps with the modulo convention of the machine. The spec
  leaves open what they yield when the fallback is outside the alphabet too, or when the
  alphabet is empty: here \<open>-1\<close> and the fallback; no theorem below rests on that choice.
\<close>

fun indexOf :: "'c list \<Rightarrow> 'c \<Rightarrow> nat option" where
  "indexOf [] c = None"
| "indexOf (a # as) c =
     (if a = c then Some 0 else map_option Suc (indexOf as c))"

fun symbolIndex :: "'c list \<Rightarrow> 'c list \<Rightarrow> nat option" where
  "symbolIndex alphabet [c] = indexOf alphabet c"
| "symbolIndex alphabet s = None"

definition getCharacterIndex :: "'c list \<Rightarrow> 'c list \<Rightarrow> 'c list \<Rightarrow> int" where
  "getCharacterIndex char alphabet unknownAs =
     (case symbolIndex alphabet char of
        Some i \<Rightarrow> int i
      | None \<Rightarrow>
          (case symbolIndex alphabet unknownAs of
             Some j \<Rightarrow> int j
           | None \<Rightarrow> - 1))"

definition getCharacterFromIndex :: "int \<Rightarrow> 'c list \<Rightarrow> 'c list \<Rightarrow> 'c list" where
  "getCharacterFromIndex index alphabet unknownAs =
     (if alphabet = [] then unknownAs
      else [alphabet ! nat (circular index (int (length alphabet)))])"

section \<open>Validation findings\<close>

text \<open>
  A finding is one \<^verbatim>\<open>Error\<close> object of a \<^verbatim>\<open>validate()\<close> list. The message text is
  kept as structure: which component, which position and value, which wheel.
\<close>

datatype finding =
    StatorDuplicate nat int         \<comment> \<open>Stator.mapping[ind] is a duplicate value 'val'\<close>
  | ReflectorDuplicate nat int      \<comment> \<open>Reflector.wiring[ind] is a duplicate value 'val'\<close>
  | WheelDuplicate nat int
  | PlugboardDuplicate nat int
  | EntryWheelMismatch              \<comment> \<open>invalid entry wheel (ETW), the number of characters does not match\<close>
  | WheelMismatch nat               \<comment> \<open>invalid wheel[ind], the number of characters does not match\<close>
  | WheelInvalid nat finding        \<comment> \<open>invalid wheel[ind]: followed by the wheel's own message\<close>
  | ReflectorMismatch
  | ReflectorMissing                \<comment> \<open>does not have a Reflector installed\<close>
  | PlugboardMismatch

text \<open>
  \<^verbatim>\<open>OptErrors\<close>, the result of \<^verbatim>\<open>Stator.validate\<close> and \<^verbatim>\<open>Reflector.validate\<close>: a list
  of errors, or \<^verbatim>\<open>undefined\<close> (\<open>None\<close>) when the function ends without a
  \<^verbatim>\<open>return\<close>.
\<close>

type_synonym OptErrors = "finding list option"

section \<open>Stator\<close>

record Stator =
  s_label :: string
  s_numCharacters :: int
  mapping :: "int list"

definition Stator_new :: "string \<Rightarrow> int \<Rightarrow> int list \<Rightarrow> error + Stator" where
  "Stator_new label numChars mp =
     (if length label < 1 then Inl EmptyLabel
      else if numChars \<le> 0 then Inl InvalidNumChars
      else if int (length mp) \<noteq> numChars then Inl InvalidWiring
      else Inr \<lparr>s_label = label, s_numCharacters = numChars, mapping = mp\<rparr>)"

text \<open>
  \<^verbatim>\<open>this.mapping[circular(index, this.numCharacters)]\<close>. The constructor has made the
  table \<open>numCharacters > 0\<close> long, so the read is in range for every stator it built.
\<close>

definition Stator_encode :: "Stator \<Rightarrow> int \<Rightarrow> int" where
  "Stator_encode s index = mapping s ! nat (circular index (s_numCharacters s))"

definition Stator_validate :: "Stator \<Rightarrow> OptErrors" where
  "Stator_validate s =
     (let dups = findDuplicates (mapping s)
      in if length dups \<noteq> 0
         then Some (map (\<lambda>(ind, val). StatorDuplicate ind val) dups)
         else None)"

section \<open>Reflector\<close>

record Reflector =
  r_label :: string
  r_numCharacters :: int
  r_wiring :: "int list"
  moving :: bool
  r_startingPosition :: int
  r_position :: int
  r_init :: bool

definition Reflector_new :: "string \<Rightarrow> int \<Rightarrow> int list \<Rightarrow> bool \<Rightarrow> error + Reflector" where
  "Reflector_new label numChars wiring mv =
     (if length label < 1 then Inl EmptyLabel
      else if numChars \<le> 0 then Inl InvalidNumChars
      else if int (length wiring) \<noteq> numChars then Inl InvalidWiring
      else Inr \<lparr>r_label = label, r_numCharacters = numChars, r_wiring = wiring,
                moving = mv, r_startingPosition = 0, r_position = 0, r_init = False\<rparr>)"

definition Reflector_setup :: "Reflector \<Rightarrow> int \<Rightarrow> Reflector" where
  "Reflector_setup r startPosition =
     (let start = circular startPosition (r_numCharacters r)
      in r\<lparr>r_startingPosition := start, r_position := start, r_init := True\<rparr>)"

text \<open>
  \<^verbatim>\<open>this.wiring[circular(index + this.#position, this.numCharacters)]\<close>; as for the
  stator, the constructor has made the table \<open>numCharacters > 0\<close> long.
\<close>

definition Reflector_encode :: "Reflector \<Rightarrow> int \<Rightarrow> int" where
  "Reflector_encode r index =
     (let char = circular (index + r_position r) (r_numCharacters r)
      in r_wiring r ! nat char)"

definition Reflector_advance :: "Reflector \<Rightarrow> int \<Rightarrow> Reflector" where
  "Reflector_advance r steps =
     (if moving r = False then r
      else r\<lparr>r_position := circular (r_position r + steps) (r_numCharacters r)\<rparr>)"

definition Reflector_validate :: "Reflector \<Rightarrow> OptErrors" where
  "Reflector_validate r =
     (let dups = findDuplicates (r_wiring r)
      in if length dups \<noteq> 0
         then Some (map (\<lambda>(ind, val). ReflectorDuplicate ind val) dups)
         else None)"

text \<open>
  The states a reflector can be in: built by the constructor, then any number of
  \<^verbatim>\<open>setup\<close> and \<^verbatim>\<open>advance\<close> calls with any integer argument. The class has no other
  method that writes a field.
\<close>

inductive Reflector_reachable :: "Reflector \<Rightarrow> bool" where
  constructed: "Reflector_new label numChars wiring mv = Inr r \<Longrightarrow> Reflector_reachable r"
| after_setup: "Reflector_reachable r \<Longrightarrow> Reflector_reachable (Reflector_setup r startPosition)"
| after_advance: "Reflector_reachable r \<Longrightarrow> Reflector_reachable (Reflector_advance r steps)"

section \<open>Wheel and Plugboard\<close>

text \<open>
  Modelled from the spec: \<^verbatim>\<open>src/components/Wheel.ts\<close> is not among the sources. The
  spec (sections 3 and 4.3) gives the rotor as label, numCharacters, wiring, a set of notch
  markers, startingPosition and currentPosition, with
  \<^item> \<open>advance(steps=1)\<close>: currentPosition = (currentPosition + steps) mod N;
  \<^item> \<open>atNotch\<close>: true iff the rotor's current position is a member of its notch set
    (the notch markers are kept as positions here);
  \<^item> \<open>encode(index)\<close>: \<open>wiring[(index + currentPosition) mod N]\<close>;
  \<^item> \<open>setup(start)\<close>: fixes startingPosition and makes currentPosition equal to it;
  \<^item> \<open>reset()\<close>: currentPosition = startingPosition;
  \<^item> \<open>validate()\<close>: the duplicate check of section 4.1 on the rotor's wiring.
  The construction contract of section 6 makes the wiring \<open>numCharacters > 0\<close> long.
\<close>

record Wheel =
  w_label :: string
  w_numCharacters :: int
  w_wiring :: "int list"
  notches :: "int list"
  w_startingPosition :: int
  currentPosition :: int

definition Wheel_setup :: "Wheel \<Rightarrow> int \<Rightarrow> Wheel" where
  "Wheel_setup w start =
     w\<lparr>w_startingPosition := circular start (w_numCharacters w),
       currentPosition := circular start (w_numCharacters w)\<rparr>"

definition Wheel_advance :: "Wheel \<Rightarrow> int \<Rightarrow> Wheel" where
  "Wheel_advance w steps =
     w\<lparr>currentPosition := circular (currentPosition w + steps) (w_numCharacters w)\<rparr>"

definition atNotch :: "Wheel \<Rightarrow> bool" where
  "atNotch w = (currentPosition w \<in> set (notches w))"

definition Wheel_encode :: "Wheel \<Rightarrow> int \<Rightarrow> int" where
  "Wheel_encode w index =
     w_wiring w ! nat (circular (index + currentPosition w) (w_numCharacters w))"

definition Wheel_reset :: "Wheel \<Rightarrow> Wheel" where
  "Wheel_reset w = w\<lparr>currentPosition := w_startingPosition w\<rparr>"

definition Wheel_validate :: "Wheel \<Rightarrow> finding list" where
  "Wheel_validate w = map (\<lambda>(ind, val). WheelDuplicate ind val) (findDuplicates (w_wiring w))"

text \<open>
  Modelled from the spec: \<^verbatim>\<open>src/components/Plugboard.ts\<close> is not among the sources. The
  spec (sections 3 and 4.5) gives the plugboard as numCharacters and a wiring table, with
  \<open>encode(index)\<close> a single table lookup with no positional offset, the index normalised
  as in every indexed component (section 4.2), and \<open>validate()\<close> the duplicate check.
\<close>

record Plugboard =
  p_numCharacters :: int
  p_wiring :: "int list"

definition Plugboard_encode :: "Plugboard \<Rightarrow> int \<Rightarrow> int" where
  "Plugboard_encode p index = p_wiring p ! nat (circular index (p_numCharacters p))"

definition Plugboard_validate :: "Plugboard \<Rightarrow> finding list" where
  "Plugboard_validate p =
     map (\<lambda>(ind, val). PlugboardDuplicate ind val) (findDuplicates (p_wiring p))"

section \<open>Traces\<close>

text \<open>
  One \<open>TraceStep\<close> per sub-step, in the order the source pushes them. An encode step
  keeps the component, the index and symbol before, and the index and symbol after. The
  free-text \<^verbatim>\<open>msg\<close> of an advance step is kept as the case of the source that wrote it.
\<close>

datatype component = PlugboardC | StatorC | WheelC nat | ReflectorC

datatype advance_msg = FirstWheel | BecauseOfNotch | DidNotAdvance

datatype 'c TraceStep =
    Encode component int "'c list" int "'c list"          \<comment> \<open>op: 'Encode'\<close>
  | EncodeReverse component int "'c list" int "'c list"   \<comment> \<open>op: 'Encode Reverse'\<close>
  | WheelAdvance nat advance_msg                    \<comment> \<open>op: 'Wheel Advance'\<close>
  | ReflectorAdvance                                \<comment> \<open>op: 'Reflector Advance'\<close>

record 'c Trace =
  inputRaw :: "'c list"
  inputChar :: "'c list"
  inputIndex :: int
  steps :: "'c TraceStep list"
  outputIndex :: int
  outputChar :: "'c list"

section \<open>Machine\<close>

record 'c Machine =
  label :: string
  alphabet :: "'c list"
  numCharacters :: int
  plugboard :: "Plugboard option"
  entryWheel :: Stator
  wheels :: "Wheel list"
  reflector :: "Reflector option"

text \<open>
  The constructor. The \<^verbatim>\<open>instanceof\<close> checks are the types of the arguments; an
  argument left out is \<open>None\<close>. The wheels of a machine are taken to be distinct
  objects, owned by the machine (spec section 3).
\<close>

definition Machine_new ::
  "('c list \<Rightarrow> 'c list) \<Rightarrow> string \<Rightarrow> 'c list \<Rightarrow> Stator \<Rightarrow> Wheel list option
     \<Rightarrow> Reflector option \<Rightarrow> Plugboard option \<Rightarrow> error + 'c Machine" where
  "Machine_new up lbl alph etw whls ukw plug =
     (if length lbl \<le> 0 then Inl EmptyLabel
      else if length alph = 0 then Inl InvalidAlphabet
      else Inr \<lparr>label = lbl, alphabet = up alph,
                numCharacters = int (length (up alph)),
                plugboard = plug, entryWheel = etw,
                wheels = (case whls of None \<Rightarrow> [] | Some ws \<Rightarrow> ws),
                reflector = ukw\<rparr>)"

text \<open>
  \<^verbatim>\<open>reset()\<close>: every wheel is reset, then \<^verbatim>\<open>this.reflector?.reset()\<close> is called. The
  optional chaining skips the call when no reflector is installed. The class
  \<^verbatim>\<open>Reflector\<close> has the methods \<^verbatim>\<open>setup\<close>, \<^verbatim>\<open>encode\<close>, \<^verbatim>\<open>advance\<close> and
  \<^verbatim>\<open>validate\<close> and no \<^verbatim>\<open>reset\<close>, so with a reflector installed the call raises a
  TypeError, after the wheels have been reset.
\<close>

definition Machine_reset :: "'c Machine \<Rightarrow> 'c Machine \<times> (error + unit)" where
  "Machine_reset m =
     (let m' = m\<lparr>wheels := map Wheel_reset (wheels m)\<rparr>
      in case reflector m' of
           None \<Rightarrow> (m', Inr ())
         | Some r \<Rightarrow> (m', Inl NotAFunction))"

text \<open>
  The body of the \<^verbatim>\<open>this.wheels.forEach\<close> loop of \<^verbatim>\<open>processCharacter\<close>, on the state
  (wheels, index, trace steps): wheel \<open>ind\<close> advances when \<open>ind = 0\<close> or when
  \<^verbatim>\<open>this.wheels[ind - 1].atNotch\<close> holds in the array as it is at that moment, and then
  encodes the index.
\<close>

definition forward_step ::
  "'c list \<Rightarrow> 'c list \<Rightarrow> Wheel list \<times> int \<times> 'c TraceStep list \<Rightarrow> nat
     \<Rightarrow> Wheel list \<times> int \<times> 'c TraceStep list" where
  "forward_step alph unknownAs st ind =
     (case st of (ws, index, stps) \<Rightarrow>
        let whl = ws ! ind;
            adv = (if ind = 0 then (Wheel_advance whl 1, FirstWheel)
                   else if atNotch (ws ! (ind - 1)) then (Wheel_advance whl 1, BecauseOfNotch)
                   else (whl, DidNotAdvance));
            out = Wheel_encode (fst adv) index
        in (ws[ind := fst adv], out,
            stps @ [WheelAdvance ind (snd adv),
                    Encode (WheelC ind) index (getCharacterFromIndex index alph unknownAs)
                      out (getCharacterFromIndex out alph unknownAs)]))"

text \<open>
  Modelled from the spec: \<^verbatim>\<open>forEachReverse\<close> of \<^verbatim>\<open>src/common\<close> is not among the
  sources. The spec (section 4.6, step 9) has the rotors visited in decreasing index
  order; the callback gets the element and its index.
\<close>

definition forEachReverse :: "'a list \<Rightarrow> ('s \<Rightarrow> nat \<times> 'a \<Rightarrow> 's) \<Rightarrow> 's \<Rightarrow> 's" where
  "forEachReverse xs f s = foldl f s (rev (zip [0..<length xs] xs))"

definition reverse_step ::
  "'c list \<Rightarrow> 'c list \<Rightarrow> int \<times> 'c TraceStep list \<Rightarrow> nat \<times> Wheel
     \<Rightarrow> int \<times> 'c TraceStep list" where
  "reverse_step alph unknownAs st iw =
     (case st of (index, stps) \<Rightarrow>
        let out = Wheel_encode (snd iw) index
        in (out,
            stps @ [EncodeReverse (WheelC (fst iw)) index
                      (getCharacterFromIndex index alph unknownAs)
                      out (getCharacterFromIndex out alph unknownAs)]))"

definition processCharacter ::
  "('c list \<Rightarrow> 'c list) \<Rightarrow> 'c Machine \<Rightarrow> 'c list \<Rightarrow> 'c list
     \<Rightarrow> 'c Machine \<times> (error + 'c list \<times> 'c Trace)" where
  "processCharacter up m char unknownAs =
     (case reflector m of
        None \<Rightarrow> (m, Inl NoReflector)
      | Some ukw \<Rightarrow>
          (case char of
             [] \<Rightarrow> (m, Inl UndefinedProperty)
           | c # cs \<Rightarrow>
               let input = up [c] in
               if length input = 0 \<or> length input > 1 then (m, Inl InputLength)
               else
                 let symbolAt = (\<lambda>i. getCharacterFromIndex i (alphabet m) unknownAs);
                     index0 = getCharacterIndex input (alphabet m) unknownAs;
                     index1 = (case plugboard m of None \<Rightarrow> index0
                               | Some pb \<Rightarrow> Plugboard_encode pb index0);
                     steps1 = (case plugboard m of None \<Rightarrow> []
                               | Some pb \<Rightarrow> [Encode PlugboardC index0 (symbolAt index0) index1 (symbolAt index1)]);
                     index2 = Stator_encode (entryWheel m) index1;
                     steps2 = steps1 @ [Encode StatorC index1 (symbolAt index1) index2 (symbolAt index2)];
                     fwd = foldl (forward_step (alphabet m) unknownAs)
                             (wheels m, index2, steps2) [0..<length (wheels m)];
                     ws' = fst fwd;
                     index3 = fst (snd fwd);
                     steps3 = snd (snd fwd);
                     ukw' = (if moving ukw then Reflector_advance ukw 1 else ukw);
                     steps4 = (if moving ukw then steps3 @ [ReflectorAdvance] else steps3);
                     index4 = Reflector_encode ukw' index3;
                     steps5 = steps4 @ [Encode ReflectorC index3 (symbolAt index3) index4 (symbolAt index4)];
                     bwd = forEachReverse ws' (reverse_step (alphabet m) unknownAs) (index4, steps5);
                     index5 = fst bwd;
                     steps6 = snd bwd;
                     index6 = Stator_encode (entryWheel m) index5;
                     steps7 = steps6 @ [EncodeReverse StatorC index5 (symbolAt index5) index6 (symbolAt index6)];
                     index7 = (case plugboard m of None \<Rightarrow> index6
                               | Some pb \<Rightarrow> Plugboard_encode pb index6);
                     steps8 = (case plugboard m of None \<Rightarrow> steps7
                               | Some pb \<Rightarrow>
                                   steps7 @ [EncodeReverse PlugboardC index6 (symbolAt index6) index7 (symbolAt index7)])
                 in (m\<lparr>wheels := ws', reflector := Some ukw'\<rparr>,
                     Inr (symbolAt index7,
                          \<lparr>inputRaw = char, inputChar = input, inputIndex = index0,
                           steps = steps8, outputIndex = index7, outputChar = symbolAt index7\<rparr>))))"

text \<open>
  \<^verbatim>\<open>processMessage\<close>: \<^verbatim>\<open>msg.split('')\<close> gives the one-character strings of the
  message; the \<^verbatim>\<open>map\<close> callback runs \<^verbatim>\<open>processCharacter\<close> on each in turn, on the
  machine as the call before left it, pushes the trace and yields the output symbol; an
  error of \<^verbatim>\<open>processCharacter\<close> ends the call.
\<close>

fun mapChars ::
  "('c list \<Rightarrow> 'c list) \<Rightarrow> 'c Machine \<Rightarrow> 'c list list \<Rightarrow> 'c list \<Rightarrow> 'c list list
     \<Rightarrow> 'c Trace list \<Rightarrow> 'c Machine \<times> (error + 'c list list \<times> 'c Trace list)" where
  "mapChars up m [] unknownAs outs traces = (m, Inr (outs, traces))"
| "mapChars up m (char # rest) unknownAs outs traces =
     (case processCharacter up m char unknownAs of
        (m', Inl e) \<Rightarrow> (m', Inl e)
      | (m', Inr (out, trace)) \<Rightarrow>
          mapChars up m' rest unknownAs (outs @ [out]) (traces @ [trace]))"

definition processMessage ::
  "('c list \<Rightarrow> 'c list) \<Rightarrow> 'c Machine \<Rightarrow> 'c list \<Rightarrow> 'c list
     \<Rightarrow> 'c Machine \<times> (error + 'c list \<times> 'c Trace list)" where
  "processMessage up m msg unknownAs =
     (if length msg = 0 then (m, Inr (msg, []))
      else
        (case mapChars up m (map (\<lambda>c. [c]) msg) unknownAs [] [] of
           (m', Inl e) \<Rightarrow> (m', Inl e)
         | (m', Inr (outs, traces)) \<Rightarrow> (m', Inr (concat outs, traces))))"

text \<open>
  \<^verbatim>\<open>validate()\<close>. \<^verbatim>\<open>errs.push(...x)\<close> spreads \<open>x\<close> into the argument list, which
  raises a TypeError when \<open>x\<close> is \<^verbatim>\<open>undefined\<close>: that is what \<^verbatim>\<open>Stator.validate\<close> and
  \<^verbatim>\<open>Reflector.validate\<close> return when they find no duplicate.
\<close>

definition validate_wheel :: "'c Machine \<Rightarrow> nat \<times> Wheel \<Rightarrow> finding list" where
  "validate_wheel m iw =
     (let subErrs = (if w_numCharacters (snd iw) \<noteq> numCharacters m
                     then [WheelMismatch (fst iw)] else []);
          valErrs = map (WheelInvalid (fst iw)) (Wheel_validate (snd iw))
      in subErrs @ valErrs)"

definition validate_plugboard :: "'c Machine \<Rightarrow> finding list \<Rightarrow> finding list" where
  "validate_plugboard m errs =
     (case plugboard m of
        None \<Rightarrow> errs
      | Some pb \<Rightarrow>
          errs @ (if p_numCharacters pb \<noteq> numCharacters m then [PlugboardMismatch] else [])
               @ Plugboard_validate pb)"

definition Machine_validate :: "'c Machine \<Rightarrow> error + finding list" where
  "Machine_validate m =
     (let errs0 = (if s_numCharacters (entryWheel m) \<noteq> numCharacters m
                   then [EntryWheelMismatch] else [])
      in case Stator_validate (entryWheel m) of
           None \<Rightarrow> Inl NotIterable
         | Some es \<Rightarrow>
             let errs1 = errs0 @ es;
                 errs2 = errs1 @ concat (map (validate_wheel m)
                                          (zip [0..<length (wheels m)] (wheels m)))
             in (case reflector m of
                   Some r \<Rightarrow>
                     let errs3 = errs2 @ (if r_numCharacters r \<noteq> numCharacters m
                                          then [ReflectorMismatch] else [])
                     in (case Reflector_validate r of
                           None \<Rightarrow> Inl NotIterable
                         | Some rs \<Rightarrow> Inr (validate_plugboard m (errs3 @ rs)))
                 | None \<Rightarrow> Inr (validate_plugboard m (errs2 @ [ReflectorMissing]))))"

section \<open>The pipeline as the spec words it\<close>

text \<open>
  The advancement of the wheels on its own: the stepping decisions of the
  \<^verbatim>\<open>forEach\<close> loop of \<^verbatim>\<open>processCharacter\<close>, in index order, without the encoding.
\<close>

definition advance_step :: "Wheel list \<Rightarrow> nat \<Rightarrow> Wheel list" where
  "advance_step ws ind =
     ws[ind := (if ind = 0 then Wheel_advance (ws ! ind) 1
                else if atNotch (ws ! (ind - 1)) then Wheel_advance (ws ! ind) 1
                else ws ! ind)]"

definition advanceWheels :: "Wheel list \<Rightarrow> Wheel list" where
  "advanceWheels ws = foldl advance_step ws [0..<length ws]"

definition advanceReflector :: "Reflector \<Rightarrow> Reflector" where
  "advanceReflector ukw = (if moving ukw then Reflector_advance ukw 1 else ukw)"

text \<open>
  The substitutions of one symbol in the order of the spec (section 2 and section 4.6,
  steps 3 to 11): plugboard if installed, stator, the advanced wheels in increasing
  index order, the reflector (advanced first when it is moving), the wheels in
  decreasing index order, stator, plugboard if installed.
\<close>

definition substitutions :: "'c Machine \<Rightarrow> Reflector \<Rightarrow> (int \<Rightarrow> int) list" where
  "substitutions m ukw =
     (case plugboard m of None \<Rightarrow> [] | Some pb \<Rightarrow> [Plugboard_encode pb]) @
     [Stator_encode (entryWheel m)] @
     map Wheel_encode (advanceWheels (wheels m)) @
     [Reflector_encode (advanceReflector ukw)] @
     map Wheel_encode (rev (advanceWheels (wheels m))) @
     [Stator_encode (entryWheel m)] @
     (case plugboard m of None \<Rightarrow> [] | Some pb \<Rightarrow> [Plugboard_encode pb])"

definition applyAll :: "(int \<Rightarrow> int) list \<Rightarrow> int \<Rightarrow> int" where
  "applyAll fs i = foldl (\<lambda>i f. f i) i fs"

text \<open>
  What a trace step records, without the indices and symbols: a substitution by a
  component, or the stepping of a wheel or of the reflector.
\<close>

datatype event = Substitute component | StepWheel nat | StepReflector

fun eventOf :: "'c TraceStep \<Rightarrow> event" where
  "eventOf (Encode cmp i ic out oc) = Substitute cmp"
| "eventOf (EncodeReverse cmp i ic out oc) = Substitute cmp"
| "eventOf (WheelAdvance ind msg) = StepWheel ind"
| "eventOf ReflectorAdvance = StepReflector"

definition events :: "'c Machine \<Rightarrow> Reflector \<Rightarrow> event list" where
  "events m ukw =
     (case plugboard m of None \<Rightarrow> [] | Some pb \<Rightarrow> [Substitute PlugboardC]) @
     [Substitute StatorC] @
     concat (map (\<lambda>ind. [StepWheel ind, Substitute (WheelC ind)]) [0..<length (wheels m)]) @
     (if moving ukw then [StepReflector] else []) @
     [Substitute ReflectorC] @
     map (\<lambda>ind. Substitute (WheelC ind)) (rev [0..<length (wheels m)]) @
     [Substitute StatorC] @
     (case plugboard m of None \<Rightarrow> [] | Some pb \<Rightarrow> [Substitute PlugboardC])"

text \<open>
  \<^verbatim>\<open>processMessage\<close> as the spec words it (section 4.6): a fold of
  \<^verbatim>\<open>processCharacter\<close> over the symbols in order, accumulating the output symbols and
  one trace per symbol.
\<close>

definition foldStep ::
  "('c list \<Rightarrow> 'c list) \<Rightarrow> 'c list \<Rightarrow> 'c Machine \<times> (error + 'c list \<times> 'c Trace list) \<Rightarrow> 'c
     \<Rightarrow> 'c Machine \<times> (error + 'c list \<times> 'c Trace list)" where
  "foldStep up unknownAs acc c =
     (case acc of
        (m, Inl e) \<Rightarrow> (m, Inl e)
      | (m, Inr (text, traces)) \<Rightarrow>
          (case processCharacter up m [c] unknownAs of
             (m', Inl e) \<Rightarrow> (m', Inl e)
           | (m', Inr (out, trace)) \<Rightarrow> (m', Inr (text @ out, traces @ [trace]))))"

definition processMessage_fold ::
  "('c list \<Rightarrow> 'c list) \<Rightarrow> 'c Machine \<Rightarrow> 'c list \<Rightarrow> 'c list
     \<Rightarrow> 'c Machine \<times> (error + 'c list \<times> 'c Trace list)" where
  "processMessage_fold up m msg unknownAs = foldl (foldStep up unknownAs) (m, Inr ([], [])) msg"

definition joined ::
  "'c Machine \<times> (error + 'c list list \<times> 'c Trace list)
     \<Rightarrow> 'c Machine \<times> (error + 'c list \<times> 'c Trace list)" where
  "joined res =
     (case res of (m', Inl e) \<Rightarrow> (m', Inl e) | (m', Inr (outs, traces)) \<Rightarrow> (m', Inr (concat outs, traces)))"

section \<open>Example machines\<close>

text \<open>
  The examples are strings of code units below 256 (Basic Latin and Latin-1 Supplement),
  one \<open>char\<close> per code unit, and the upper-casing function they pass for \<open>up\<close> is
  \<^verbatim>\<open>String.prototype.toUpperCase\<close> on such strings wherever the result is made of
  such code units again: \<open>a\<close>..\<open>z\<close> and the letters \<open>0xE0\<close>..\<open>0xFE\<close> (all but the
  division sign \<open>0xF7\<close>) lose 32, \<open>\<ss>\<close> (\<open>0xDF\<close>) becomes the two units \<open>SS\<close>, every
  other unit stays. The two units whose upper-case forms lie beyond 255, \<open>0xB5\<close> and
  \<open>0xFF\<close>, are left as they are; no example contains them.
\<close>

definition upperUnit :: "char \<Rightarrow> string" where
  "upperUnit c =
     (if (97::nat) \<le> of_char c \<and> of_char c \<le> (122::nat)
        then [char_of (of_char c - (32::nat))]
      else if of_char c = (223::nat) then ''SS''
      else if of_char c = (247::nat) then [c]
      else if (224::nat) \<le> of_char c \<and> of_char c \<le> (254::nat)
        then [char_of (of_char c - (32::nat))]
      else [c])"

definition toUpperCaseLatin1 :: "string \<Rightarrow> string" where
  "toUpperCaseLatin1 s = concat (map upperUnit s)"

text \<open>
  A four-symbol machine: identity entry wheel, one wheel wired as the three-cycle
  \<open>A\<rightarrow>B\<rightarrow>C\<rightarrow>A\<close> with \<open>D\<close> fixed, started at position 3, a static reflector swapping
  \<open>A\<leftrightarrow>B\<close> and \<open>C\<leftrightarrow>D\<close>, and no plugboard. Every table is a permutation, the reflector
  is self-inverse with no fixed point, and every component has four characters.
\<close>

definition exampleStator :: Stator where
  "exampleStator = \<lparr>s_label = ''ETW'', s_numCharacters = 4, mapping = [0, 1, 2, 3]\<rparr>"

definition exampleWheel :: Wheel where
  "exampleWheel =
     \<lparr>w_label = ''I'', w_numCharacters = 4, w_wiring = [1, 2, 0, 3], notches = [0],
      w_startingPosition = 3, currentPosition = 3\<rparr>"

definition exampleReflector :: Reflector where
  "exampleReflector =
     \<lparr>r_label = ''UKW'', r_numCharacters = 4, r_wiring = [1, 0, 3, 2],
      moving = False, r_startingPosition = 0, r_position = 0, r_init = False\<rparr>"

definition movingReflector :: Reflector where
  "movingReflector =
     \<lparr>r_label = ''UKW-G'', r_numCharacters = 4, r_wiring = [1, 0, 3, 2],
      moving = True, r_startingPosition = 0, r_position = 0, r_init = False\<rparr>"

definition exampleMachine :: "char Machine" where
  "exampleMachine =
     \<lparr>label = ''Example'', alphabet = ''ABCD'', numCharacters = 4, plugboard = None,
      entryWheel = exampleStator, wheels = [exampleWheel],
      reflector = Some exampleReflector\<rparr>"

text \<open>
  The example machine over the alphabet \<open>A\<close>, \<open>B\<close>, \<open>C\<close> and the letter \<open>0xC5\<close>
  (capital A with ring above, a letter of the 28-letter alphabet of the repository's
  models), whose lower-case form is \<open>0xE5\<close>.
\<close>

definition nordicMachine :: "char Machine" where
  "nordicMachine =
     \<lparr>label = ''Nordic'', alphabet = [CHR ''A'', CHR ''B'', CHR ''C'', CHR 0xC5],
      numCharacters = 4, plugboard = None,
      entryWheel = exampleStator, wheels = [exampleWheel],
      reflector = Some exampleReflector\<rparr>"

text \<open>
  The same machine with a moving reflector, and a two-wheel machine whose wheel 0 stands
  at position 0 with its notch at position 1.
\<close>

definition movingMachine :: "char Machine" where
  "movingMachine =
     \<lparr>label = ''Moving'', alphabet = ''ABCD'', numCharacters = 4, plugboard = None,
      entryWheel = exampleStator, wheels = [exampleWheel],
      reflector = Some movingReflector\<rparr>"

definition notchWheel :: Wheel where
  "notchWheel =
     \<lparr>w_label = ''I'', w_numCharacters = 4, w_wiring = [1, 2, 0, 3], notches = [1],
      w_startingPosition = 0, currentPosition = 0\<rparr>"

definition plainWheel :: Wheel where
  "plainWheel =
     \<lparr>w_label = ''II'', w_numCharacters = 4, w_wiring = [3, 0, 1, 2], notches = [],
      w_startingPosition = 0, currentPosition = 0\<rparr>"

definition twoWheelMachine :: "char Machine" where
  "twoWheelMachine =
     \<lparr>label = ''Two wheels'', alphabet = ''ABCD'', numCharacters = 4, plugboard = None,
      entryWheel = exampleStator, wheels = [notchWheel, plainWheel],
      reflector = Some exampleReflector\<rparr>"

text \<open>
  The M3 of \<^verbatim>\<open>src/models/ModelM3.ts\<close>, as in the end-to-end scenario of the spec
  (section 8): wheels I, II and III, wheel III first to encode, reflector UKW-B, no
  plugboard, identity entry wheel, everything at position 0.

  Modelled from the spec: the code that turns a model's wiring string into a wiring
  table is not among the sources. By the table's description in \<^verbatim>\<open>Reflector.ts\<close>
  (\<open>wiring[0] = 5\<close> sends input character 0 to character 5), position \<open>i\<close> of the table
  holds the alphabet index of the string's \<open>i\<close>-th character; a notch letter is read as
  its alphabet index.
\<close>

definition AlphabetABC :: string where
  "AlphabetABC = ''ABCDEFGHIJKLMNOPQRSTUVWXYZ''"

definition wiringFromString :: "string \<Rightarrow> string \<Rightarrow> int list" where
  "wiringFromString alph s = map (\<lambda>c. getCharacterIndex [c] alph ''X'') s"

definition m3Wheel :: "string \<Rightarrow> string \<Rightarrow> string \<Rightarrow> Wheel" where
  "m3Wheel lbl wiring ns =
     \<lparr>w_label = lbl, w_numCharacters = 26, w_wiring = wiringFromString AlphabetABC wiring,
      notches = wiringFromString AlphabetABC ns, w_startingPosition = 0, currentPosition = 0\<rparr>"

definition m3Machine :: "char Machine" where
  "m3Machine =
     \<lparr>label = ''M3 (Kriegsmarine)'', alphabet = AlphabetABC, numCharacters = 26,
      plugboard = None,
      entryWheel = \<lparr>s_label = ''ETW'', s_numCharacters = 26, mapping = map int [0..<26]\<rparr>,
      wheels = [m3Wheel ''III'' ''BDFHJLCPRTXVZNYEIWGAKMUSQO'' ''D'',
                m3Wheel ''II'' ''AJDKSIRUXBLHWTMCQGZNPYFVOE'' ''M'',
                m3Wheel ''I'' ''EKMFLGDQVZNTOWYHXUSPAIBRCJ'' ''Y''],
      reflector = Some \<lparr>r_label = ''UKW-B'', r_numCharacters = 26,
                         r_wiring = wiringFromString AlphabetABC ''YRUHQSLDPXNGOKMIEBFZCWVJAT'',
                         moving = False, r_startingPosition = 0, r_position = 0,
                         r_init = False\<rparr>\<rparr>"

section \<open>Valid machines, starting configurations, results\<close>

text \<open>
  A valid machine in the sense of the spec (sections 3 and 4): a reflector is installed,
  every component has the machine's number of characters and a table of that length,
  every table is a permutation of \<open>[0,N)\<close>, and the reflector's and the plugboard's
  tables are self-inverse.
\<close>

definition isPermutation :: "int \<Rightarrow> int list \<Rightarrow> bool" where
  "isPermutation n xs =
     (0 < n \<and> int (length xs) = n \<and> distinct xs \<and> list_all (\<lambda>v. 0 \<le> v \<and> v < n) xs)"

definition isInvolution :: "int list \<Rightarrow> bool" where
  "isInvolution xs = list_all (\<lambda>i. xs ! nat (xs ! i) = int i) [0..<length xs]"

definition validMachine :: "'c Machine \<Rightarrow> bool" where
  "validMachine m =
     (numCharacters m = int (length (alphabet m)) \<and> distinct (alphabet m) \<and>
      s_numCharacters (entryWheel m) = numCharacters m \<and>
      isPermutation (numCharacters m) (mapping (entryWheel m)) \<and>
      list_all (\<lambda>w. w_numCharacters w = numCharacters m \<and>
                    isPermutation (numCharacters m) (w_wiring w)) (wheels m) \<and>
      (case reflector m of
         None \<Rightarrow> False
       | Some r \<Rightarrow> r_numCharacters r = numCharacters m \<and>
                   isPermutation (numCharacters m) (r_wiring r) \<and> isInvolution (r_wiring r)) \<and>
      (case plugboard m of
         None \<Rightarrow> True
       | Some p \<Rightarrow> p_numCharacters p = numCharacters m \<and>
                   isPermutation (numCharacters m) (p_wiring p) \<and> isInvolution (p_wiring p)))"

text \<open>
  The starting configuration: every wheel and the reflector stand at their starting
  positions, as after \<^verbatim>\<open>setup\<close> and as \<^verbatim>\<open>reset()\<close> is meant to leave them.
\<close>

definition atStartingPositions :: "'c Machine \<Rightarrow> bool" where
  "atStartingPositions m =
     (list_all (\<lambda>w. currentPosition w = w_startingPosition w) (wheels m) \<and>
      (case reflector m of
         None \<Rightarrow> True
       | Some r \<Rightarrow> r_position r = r_startingPosition r))"

definition outputOf :: "'c Machine \<times> (error + 'c list \<times> 'a) \<Rightarrow> error + 'c list" where
  "outputOf res = (case snd res of Inl e \<Rightarrow> Inl e | Inr (out, t) \<Rightarrow> Inr out)"

definition traceSteps :: "'c Machine \<times> (error + 'c list \<times> 'c Trace) \<Rightarrow> 'c TraceStep list" where
  "traceSteps res = (case snd res of Inl e \<Rightarrow> [] | Inr (out, t) \<Rightarrow> steps t)"

definition wheelPositions :: "'c Machine \<Rightarrow> int list" where
  "wheelPositions m = map currentPosition (wheels m)"

section \<open>The reflector's position\<close>

lemma Reflector_new_range:
  "Reflector_new lbl numChars wiring mv = Inr r \<Longrightarrow>
     0 < r_numCharacters r \<and> r_position r = 0 \<and> r_startingPosition r = 0"
  by (auto simp: Reflector_new_def split: if_splits)

lemma Reflector_reachable_numCharacters:
  "Reflector_reachable r \<Longrightarrow> 0 < r_numCharacters r"
proof (induction rule: Reflector_reachable.induct)
  case (constructed lbl numChars wiring mv r)
  then show ?case using Reflector_new_range by blast
next
  case (after_setup r startPosition)
  then show ?case by (simp add: Reflector_setup_def Let_def)
next
  case (after_advance r k)
  then show ?case by (simp add: Reflector_advance_def)
qed

lemma circular_range: "0 < n \<Longrightarrow> 0 \<le> circular i n \<and> circular i n < n"
  by (simp add: circular_def)

lemma Reflector_reachable_range:
  "Reflector_reachable r \<Longrightarrow>
     0 \<le> r_position r \<and> r_position r < r_numCharacters r \<and>
     0 \<le> r_startingPosition r \<and> r_startingPosition r < r_numCharacters r"
proof (induction rule: Reflector_reachable.induct)
  case (constructed lbl numChars wiring mv r)
  then show ?case using Reflector_new_range [OF constructed] by simp
next
  case (after_setup r startPosition)
  have "0 < r_numCharacters r"
    using after_setup.hyps by (rule Reflector_reachable_numCharacters)
  then show ?case
    using circular_range [of "r_numCharacters r" startPosition]
    by (simp add: Reflector_setup_def Let_def)
next
  case (after_advance r k)
  have "0 < r_numCharacters r"
    using after_advance.hyps by (rule Reflector_reachable_numCharacters)
  then show ?case
    using after_advance.IH circular_range [of "r_numCharacters r" "r_position r + k"]
    by (simp add: Reflector_advance_def)
qed

text \<open>
  C9. Reflector position invariant: a reflector fresh from its constructor has its
  position in \<open>[0, numCharacters)\<close>, and so has every reflector reached from there by
  \<^verbatim>\<open>setup\<close> and \<^verbatim>\<open>advance\<close> calls with any integer arguments. After \<^verbatim>\<open>setup(start)\<close>
  the starting position is in that range and the position equals it; \<^verbatim>\<open>advance\<close> leaves
  a reflector that is not moving as it is.
\<close>

theorem Reflector_position_invariant:
  assumes "Reflector_reachable r"
  shows "(0 \<le> r_position r \<and> r_position r < r_numCharacters r) \<and>
         (0 \<le> r_position (Reflector_setup r start) \<and>
          r_position (Reflector_setup r start) < r_numCharacters (Reflector_setup r start)) \<and>
         (0 \<le> r_startingPosition (Reflector_setup r start) \<and>
          r_startingPosition (Reflector_setup r start) < r_numCharacters (Reflector_setup r start)) \<and>
         r_position (Reflector_setup r start) = r_startingPosition (Reflector_setup r start) \<and>
         (0 \<le> r_position (Reflector_advance r k) \<and>
          r_position (Reflector_advance r k) < r_numCharacters (Reflector_advance r k)) \<and>
         (if moving r then True else Reflector_advance r k = r)"
proof -
  have s: "Reflector_reachable (Reflector_setup r start)"
    using assms by (rule Reflector_reachable.after_setup)
  have a: "Reflector_reachable (Reflector_advance r k)"
    using assms by (rule Reflector_reachable.after_advance)
  have eq: "r_position (Reflector_setup r start) = r_startingPosition (Reflector_setup r start)"
    by (simp add: Reflector_setup_def Let_def)
  have noop: "if moving r then True else Reflector_advance r k = r"
    by (simp add: Reflector_advance_def)
  show ?thesis
    using Reflector_reachable_range [OF assms] Reflector_reachable_range [OF s]
      Reflector_reachable_range [OF a] eq noop
    by simp
qed

theorem Reflector_position_invariant_witness:
  "Reflector_reachable (Reflector_advance (Reflector_setup movingReflector (- 3)) 7) \<and>
   r_position (Reflector_advance (Reflector_setup movingReflector (- 3)) 7) = 0 \<and>
   r_position (Reflector_setup (Reflector_advance (Reflector_setup movingReflector (- 3)) 7) 9) = 1 \<and>
   r_position (Reflector_advance (Reflector_advance (Reflector_setup movingReflector (- 3)) 7) (- 6)) = 2"
proof -
  have c: "Reflector_new ''UKW-G'' 4 [1, 0, 3, 2] True = Inr movingReflector"
    by (simp add: Reflector_new_def movingReflector_def)
  have r: "Reflector_reachable (Reflector_advance (Reflector_setup movingReflector (- 3)) 7)"
    by (intro Reflector_reachable.after_advance Reflector_reachable.after_setup
        Reflector_reachable.constructed [OF c])
  show ?thesis
    using r Reflector_position_invariant [OF r, of 9 "- 6"]
    by (simp add: Reflector_advance_def Reflector_setup_def movingReflector_def circular_def Let_def)
qed

section \<open>The loops of processCharacter\<close>

lemma length_advance_fold: "length (foldl advance_step ws is) = length ws"
  by (induction "is" arbitrary: ws) (simp_all add: advance_step_def)

lemma length_advanceWheels: "length (advanceWheels ws) = length ws"
  by (simp add: advanceWheels_def length_advance_fold)

lemma forward_step_fst:
  "fst (forward_step a u (ws, i, stps) k) = advance_step ws k"
  by (simp add: forward_step_def advance_step_def Let_def)

lemma forward_fold_fst:
  "fst (foldl (forward_step a u) (ws, i, stps) ks) = foldl advance_step ws ks"
proof (induction ks arbitrary: ws i stps)
  case Nil
  then show ?case by simp
next
  case (Cons k ks)
  obtain ws' i' stps' where s: "forward_step a u (ws, i, stps) k = (ws', i', stps')"
    by (cases "forward_step a u (ws, i, stps) k") auto
  then have "ws' = advance_step ws k" using forward_step_fst [of a u ws i stps k] by simp
  then show ?case using Cons.IH [of ws' i' stps'] s by simp
qed

lemma forward_wheels:
  "fst (foldl (forward_step a u) (ws, i, stps) [0..<length ws]) = advanceWheels ws"
  by (simp add: forward_fold_fst advanceWheels_def)

lemma forward_fold_index:
  "k \<le> length ws \<Longrightarrow>
   fst (snd (foldl (forward_step a u) (ws, i, stps) [0..<k])) =
     foldl (\<lambda>i w. Wheel_encode w i) i (take k (foldl advance_step ws [0..<k]))"
proof (induction k)
  case 0
  then show ?case by simp
next
  case (Suc k)
  let ?st = "foldl (forward_step a u) (ws, i, stps) [0..<k]"
  let ?wsk = "foldl advance_step ws [0..<k]"
  have len: "length ?wsk = length ws" by (rule length_advance_fold)
  have k: "k < length ?wsk" using Suc.prems len by simp
  have f: "fst ?st = ?wsk" by (rule forward_fold_fst)
  have ih: "fst (snd ?st) = foldl (\<lambda>i w. Wheel_encode w i) i (take k ?wsk)"
    using Suc by simp
  obtain i' stps' where st: "?st = (?wsk, i', stps')"
    using f by (cases ?st) auto
  have i': "i' = foldl (\<lambda>i w. Wheel_encode w i) i (take k ?wsk)" using ih st by simp
  have step: "fst (snd (forward_step a u (?wsk, i', stps') k)) = Wheel_encode (advance_step ?wsk k ! k) i'"
    using k by (simp add: forward_step_def advance_step_def Let_def)
  have tk: "take (Suc k) (advance_step ?wsk k) = take k ?wsk @ [advance_step ?wsk k ! k]"
    using k by (simp add: take_Suc_conv_app_nth advance_step_def)
  show ?case
    using st step tk i' by simp
qed

lemma forward_index:
  "fst (snd (foldl (forward_step a u) (ws, i, stps) [0..<length ws])) =
     foldl (\<lambda>i w. Wheel_encode w i) i (advanceWheels ws)"
  using forward_fold_index [of "length ws" ws a u i stps]
  by (simp add: advanceWheels_def length_advance_fold)

lemma reverse_fold_index:
  "fst (foldl (reverse_step a u) (i, stps) iws) = foldl (\<lambda>i w. Wheel_encode w i) i (map snd iws)"
  by (induction iws arbitrary: i stps) (simp_all add: reverse_step_def Let_def)

lemma forEachReverse_index:
  "fst (forEachReverse ws (reverse_step a u) (i, stps)) = foldl (\<lambda>i w. Wheel_encode w i) i (rev ws)"
  by (simp add: forEachReverse_def reverse_fold_index rev_map [symmetric])

lemma applyAll_append: "applyAll (fs @ gs) i = applyAll gs (applyAll fs i)"
  by (simp add: applyAll_def)

lemma applyAll_wheels: "applyAll (map Wheel_encode ws) i = foldl (\<lambda>i w. Wheel_encode w i) i ws"
  by (simp add: applyAll_def foldl_map)

lemma forward_fold_events:
  "map eventOf (snd (snd (foldl (forward_step a u) (ws, i, stps) ks))) =
     map eventOf stps @ concat (map (\<lambda>ind. [StepWheel ind, Substitute (WheelC ind)]) ks)"
proof (induction ks arbitrary: ws i stps)
  case Nil
  then show ?case by simp
next
  case (Cons k ks)
  obtain ws' i' stps' where s: "forward_step a u (ws, i, stps) k = (ws', i', stps')"
    by (cases "forward_step a u (ws, i, stps) k") auto
  then have "map eventOf stps' = map eventOf stps @ [StepWheel k, Substitute (WheelC k)]"
    by (auto simp: forward_step_def Let_def)
  then show ?case using Cons.IH [of ws' i' stps'] s by simp
qed

lemma reverse_fold_events:
  "map eventOf (snd (foldl (reverse_step a u) (i, stps) iws)) =
     map eventOf stps @ map (\<lambda>iw. Substitute (WheelC (fst iw))) iws"
  by (induction iws arbitrary: i stps) (simp_all add: reverse_step_def Let_def)

lemma forEachReverse_events:
  "map eventOf (snd (forEachReverse ws (reverse_step a u) (i, stps))) =
     map eventOf stps @ map (\<lambda>ind. Substitute (WheelC ind)) (rev [0..<length ws])"
proof -
  have "map (\<lambda>iw. Substitute (WheelC (fst iw))) (rev (zip [0..<length ws] ws)) =
        map (\<lambda>ind. Substitute (WheelC ind)) (map fst (rev (zip [0..<length ws] ws)))"
    by simp
  also have "map fst (rev (zip [0..<length ws] ws)) = rev [0..<length ws]"
    by (simp add: rev_map [symmetric])
  finally show ?thesis by (simp add: forEachReverse_def reverse_fold_events)
qed

section \<open>processCharacter as a pipeline\<close>

lemma processCharacter_None:
  "reflector m = None \<Longrightarrow> processCharacter up m char u = (m, Inl NoReflector)"
  by (simp add: processCharacter_def)

lemma processCharacter_length:
  "reflector m = Some ukw \<Longrightarrow> length (up [c]) \<noteq> 1 \<Longrightarrow>
   processCharacter up m (c # cs) u = (m, Inl InputLength)"
  by (cases "up [c]") (auto simp: processCharacter_def Let_def)

lemma single_unit: "length xs = 1 \<Longrightarrow> \<exists>x. xs = [x]"
  by (cases xs) auto

lemma processCharacter_state:
  assumes "reflector m = Some ukw" and "length (up [c]) = 1"
  shows "fst (processCharacter up m (c # cs) u) =
     m\<lparr>wheels := advanceWheels (wheels m), reflector := Some (advanceReflector ukw)\<rparr>"
proof -
  obtain x where x: "up [c] = [x]" using single_unit [OF assms(2)] by blast
  show ?thesis
    using assms(1) x
    by (simp add: processCharacter_def Let_def forward_wheels advanceReflector_def)
qed

lemma processCharacter_output:
  assumes "reflector m = Some ukw" and "length (up [c]) = 1"
  shows "outputOf (processCharacter up m (c # cs) u) =
     Inr (getCharacterFromIndex
            (applyAll (substitutions m ukw) (getCharacterIndex (up [c]) (alphabet m) u))
            (alphabet m) u)"
proof -
  obtain x where x: "up [c] = [x]" using single_unit [OF assms(2)] by blast
  show ?thesis
    using assms(1) x
    by (cases "plugboard m")
       (simp_all add: processCharacter_def outputOf_def Let_def forward_wheels forward_index
        forEachReverse_index advanceReflector_def substitutions_def applyAll_append applyAll_wheels,
        simp_all add: applyAll_def foldl_map)
qed

lemma processCharacter_events:
  assumes "reflector m = Some ukw" and "length (up [c]) = 1"
  shows "map eventOf (traceSteps (processCharacter up m (c # cs) u)) = events m ukw"
proof -
  obtain x where x: "up [c] = [x]" using single_unit [OF assms(2)] by blast
  show ?thesis
    using assms(1) x
    by (cases "plugboard m")
       (simp_all add: processCharacter_def traceSteps_def Let_def forward_wheels
        forward_fold_events forEachReverse_events events_def length_advanceWheels)
qed

lemma processCharacter_succeeds:
  assumes "reflector m = Some ukw" and "length (up [c]) = 1"
  shows "\<exists>out t. processCharacter up m (c # cs) u =
     (m\<lparr>wheels := advanceWheels (wheels m), reflector := Some (advanceReflector ukw)\<rparr>,
      Inr (out, t))"
proof -
  obtain x where x: "up [c] = [x]" using single_unit [OF assms(2)] by blast
  show ?thesis
    using assms(1) x
    by (simp add: processCharacter_def Let_def forward_wheels advanceReflector_def)
qed

lemma getCharacterIndex_in_alphabet:
  "indexOf alph c = Some i \<Longrightarrow> getCharacterIndex [c] alph u = int i"
  by (simp add: getCharacterIndex_def)

text \<open>
  C7. For every single symbol, \<^verbatim>\<open>processCharacter\<close> fails when no reflector is
  installed. With a reflector, and the upper-case form of the symbol one code unit long
  (as it is for every symbol of the alphabet), it leaves the wheels and the reflector
  advanced, and its output is the symbol of the index obtained by applying, to the index
  of the upper-cased input, the substitutions in this order: plugboard if installed,
  stator, the advanced wheels \<open>0..N-1\<close>, the reflector (advanced first, once, if
  moving), the wheels \<open>N-1..0\<close>, stator, plugboard if installed. The trace lists the
  sub-steps in that order, each wheel's stepping just before its forward substitution.
  When the upper-case form is not one code unit long the call raises the input-length
  error and changes nothing. A symbol whose upper-case form is a symbol of the alphabet
  enters with that symbol's index.
\<close>

theorem processCharacter_pipeline_order:
  "(case reflector m of
      None \<Rightarrow> processCharacter up m [c] u = (m, Inl NoReflector)
    | Some ukw \<Rightarrow>
        (if length (up [c]) = 1
         then fst (processCharacter up m [c] u) =
                m\<lparr>wheels := advanceWheels (wheels m), reflector := Some (advanceReflector ukw)\<rparr> \<and>
              outputOf (processCharacter up m [c] u) =
                Inr (getCharacterFromIndex
                       (applyAll (substitutions m ukw)
                          (getCharacterIndex (up [c]) (alphabet m) u))
                       (alphabet m) u) \<and>
              map eventOf (traceSteps (processCharacter up m [c] u)) = events m ukw
         else processCharacter up m [c] u = (m, Inl InputLength))) \<and>
   (\<forall>c' i. up [c] = [c'] \<and> indexOf (alphabet m) c' = Some i \<longrightarrow>
      getCharacterIndex (up [c]) (alphabet m) u = int i)"
proof -
  have idx: "\<forall>c' i. up [c] = [c'] \<and> indexOf (alphabet m) c' = Some i \<longrightarrow>
      getCharacterIndex (up [c]) (alphabet m) u = int i"
    by (simp add: getCharacterIndex_in_alphabet)
  show ?thesis
  proof (cases "reflector m")
    case None
    then show ?thesis using idx by (simp add: processCharacter_None)
  next
    case (Some ukw)
    show ?thesis
    proof (cases "length (up [c]) = 1")
      case True
      then show ?thesis
        using idx Some processCharacter_state [where up=up and c=c and cs="[]" and u=u, OF Some True]
          processCharacter_output [where up=up and c=c and cs="[]" and u=u, OF Some True]
          processCharacter_events [where up=up and c=c and cs="[]" and u=u, OF Some True]
        by simp
    next
      case False
      then show ?thesis
        using idx Some processCharacter_length [where up=up and c=c and cs="[]" and u=u, OF Some False] by simp
    qed
  qed
qed

theorem processCharacter_pipeline_order_witness:
  "reflector exampleMachine = Some exampleReflector \<and>
   toUpperCaseLatin1 ''a'' = ''A'' \<and>
   indexOf (alphabet exampleMachine) CHR ''A'' = Some 0 \<and>
   outputOf (processCharacter toUpperCaseLatin1 exampleMachine ''a'' ''X'') = Inr ''B'' \<and>
   wheelPositions (fst (processCharacter toUpperCaseLatin1 exampleMachine ''a'' ''X'')) = [0] \<and>
   map eventOf (traceSteps (processCharacter toUpperCaseLatin1 exampleMachine ''a'' ''X'')) =
     [Substitute StatorC, StepWheel 0, Substitute (WheelC 0), Substitute ReflectorC,
      Substitute (WheelC 0), Substitute StatorC]"
proof -
  have r: "reflector exampleMachine = Some exampleReflector"
    by (simp add: exampleMachine_def)
  have up: "toUpperCaseLatin1 ''a'' = ''A''" by code_simp
  have i: "indexOf (alphabet exampleMachine) CHR ''A'' = Some 0"
    by code_simp
  have o: "getCharacterFromIndex
             (applyAll (substitutions exampleMachine exampleReflector) 0)
             (alphabet exampleMachine) ''X'' = ''B''"
    by code_simp
  have w: "map currentPosition (advanceWheels (wheels exampleMachine)) = [0]"
    by code_simp
  have e: "events exampleMachine exampleReflector =
     [Substitute StatorC, StepWheel 0, Substitute (WheelC 0), Substitute ReflectorC,
      Substitute (WheelC 0), Substitute StatorC]"
    by code_simp
  have t: "(case reflector exampleMachine of
      None \<Rightarrow> processCharacter toUpperCaseLatin1 exampleMachine ''a'' ''X'' =
        (exampleMachine, Inl NoReflector)
    | Some ukw \<Rightarrow>
        (if length (toUpperCaseLatin1 ''a'') = 1
         then fst (processCharacter toUpperCaseLatin1 exampleMachine ''a'' ''X'') =
                exampleMachine\<lparr>wheels := advanceWheels (wheels exampleMachine),
                                reflector := Some (advanceReflector ukw)\<rparr> \<and>
              outputOf (processCharacter toUpperCaseLatin1 exampleMachine ''a'' ''X'') =
                Inr (getCharacterFromIndex
                       (applyAll (substitutions exampleMachine ukw)
                          (getCharacterIndex (toUpperCaseLatin1 ''a'') (alphabet exampleMachine) ''X''))
                       (alphabet exampleMachine) ''X'') \<and>
              map eventOf (traceSteps (processCharacter toUpperCaseLatin1 exampleMachine ''a'' ''X'')) =
                events exampleMachine ukw
         else processCharacter toUpperCaseLatin1 exampleMachine ''a'' ''X'' =
                (exampleMachine, Inl InputLength)))"
    and x: "\<forall>c' i. toUpperCaseLatin1 ''a'' = [c'] \<and>
              indexOf (alphabet exampleMachine) c' = Some i \<longrightarrow>
              getCharacterIndex (toUpperCaseLatin1 ''a'') (alphabet exampleMachine) ''X'' = int i"
    using processCharacter_pipeline_order
      [where m=exampleMachine and up=toUpperCaseLatin1 and c="CHR ''a''" and u="''X''"]
    by blast+
  have g: "getCharacterIndex (toUpperCaseLatin1 ''a'') (alphabet exampleMachine) ''X'' = 0"
    using x up i by simp
  show ?thesis
    using r up i o w e g t by (simp add: wheelPositions_def)
qed

section \<open>Reciprocity and the return pass\<close>

text \<open>
  The return pass of the code, for every machine: the index leaves the wheels as the
  forward substitution \<^verbatim>\<open>encode\<close> of each wheel, last wheel first, makes it.
\<close>

lemma return_pass_is_forward_substitution:
  "fst (forEachReverse ws (reverse_step a u) (i, stps)) =
     applyAll (map Wheel_encode (rev ws)) i"
  by (simp add: forEachReverse_index applyAll_wheels)

text \<open>
  C1. Reciprocity: on a valid machine in its starting configuration, encoding a symbol
  of the alphabet and then encoding the result from the same starting configuration
  should give the symbol back. On the M3 of the spec's scenario the code encodes \<open>A\<close>
  to \<open>K\<close> and, from the same configuration, \<open>K\<close> to \<open>D\<close>; on the four-symbol example
  machine, \<open>A\<close> to \<open>B\<close> and \<open>B\<close> to \<open>D\<close>.
\<close>

theorem processCharacter_example_not_reciprocal:
  "validMachine m3Machine \<and> atStartingPositions m3Machine \<and>
   outputOf (processCharacter toUpperCaseLatin1 m3Machine ''A'' ''X'') = Inr ''K'' \<and>
   outputOf (processCharacter toUpperCaseLatin1 m3Machine ''K'' ''X'') = Inr ''D'' \<and>
   validMachine exampleMachine \<and> atStartingPositions exampleMachine \<and>
   outputOf (processCharacter toUpperCaseLatin1 exampleMachine ''A'' ''X'') = Inr ''B'' \<and>
   outputOf (processCharacter toUpperCaseLatin1 exampleMachine ''B'' ''X'') = Inr ''D''"
proof -
  have v3: "validMachine m3Machine" by code_simp
  have s3: "atStartingPositions m3Machine" by code_simp
  have a3: "outputOf (processCharacter toUpperCaseLatin1 m3Machine ''A'' ''X'') = Inr ''K''" by code_simp
  have b3: "outputOf (processCharacter toUpperCaseLatin1 m3Machine ''K'' ''X'') = Inr ''D''" by code_simp
  have v: "validMachine exampleMachine" by code_simp
  have s: "atStartingPositions exampleMachine" by code_simp
  have a: "outputOf (processCharacter toUpperCaseLatin1 exampleMachine ''A'' ''X'') = Inr ''B''" by code_simp
  have b: "outputOf (processCharacter toUpperCaseLatin1 exampleMachine ''B'' ''X'') = Inr ''D''" by code_simp
  show ?thesis using v3 s3 a3 b3 v s a b by blast
qed

text \<open>
  C2. On the return pass each rotor should apply the inverse of its wiring. On the
  example machine the wheel, advanced to position 0, sends index 0 to 1 on the forward
  pass; the return pass enters the wheel with index 0 and leaves with 1 again, the
  forward substitution, where the inverse substitution leaves with 2.
\<close>

theorem processCharacter_example_return_pass_forward:
  "traceSteps (processCharacter toUpperCaseLatin1 exampleMachine ''A'' ''X'') ! 2 = Encode (WheelC 0) 0 ''A'' 1 ''B'' \<and>
   traceSteps (processCharacter toUpperCaseLatin1 exampleMachine ''A'' ''X'') ! 4 =
     EncodeReverse (WheelC 0) 0 ''A'' 1 ''B'' \<and>
   wheels (fst (processCharacter toUpperCaseLatin1 exampleMachine ''A'' ''X'')) = [Wheel_advance exampleWheel 1] \<and>
   Wheel_encode (Wheel_advance exampleWheel 1) 0 = 1 \<and>
   Wheel_encode (Wheel_advance exampleWheel 1) 1 = 2 \<and>
   Wheel_encode (Wheel_advance exampleWheel 1) 2 = 0"
proof -
  have a: "traceSteps (processCharacter toUpperCaseLatin1 exampleMachine ''A'' ''X'') ! 2 =
      Encode (WheelC 0) 0 ''A'' 1 ''B''" by code_simp
  have b: "traceSteps (processCharacter toUpperCaseLatin1 exampleMachine ''A'' ''X'') ! 4 =
      EncodeReverse (WheelC 0) 0 ''A'' 1 ''B''" by code_simp
  have c: "wheels (fst (processCharacter toUpperCaseLatin1 exampleMachine ''A'' ''X'')) =
      [Wheel_advance exampleWheel 1]" by code_simp
  have d: "Wheel_encode (Wheel_advance exampleWheel 1) 0 = 1" by code_simp
  have e: "Wheel_encode (Wheel_advance exampleWheel 1) 1 = 2" by code_simp
  have f: "Wheel_encode (Wheel_advance exampleWheel 1) 2 = 0" by code_simp
  show ?thesis using a b c d e f by blast
qed

section \<open>Stepping\<close>

text \<open>
  The stepping of two wheels, for every pair: the decision for wheel 1 reads the notch
  of wheel 0 after wheel 0 has advanced.
\<close>

lemma advanceWheels_two:
  "advanceWheels [w0, w1] =
     [Wheel_advance w0 1,
      if atNotch (Wheel_advance w0 1) then Wheel_advance w1 1 else w1]"
  by (simp add: advanceWheels_def advance_step_def upt_rec)

text \<open>
  C3. Stepping rule: rotor \<open>i > 0\<close> should advance iff rotor \<open>i - 1\<close> was at a notch
  before any rotor advanced in this step. On the two-wheel machine wheel 0 is not at its
  notch before the step, and the code advances wheel 1 all the same: wheel 0 has moved
  onto its notch by the time the code looks. One symbol later wheel 0 is at its notch
  before the step, and the code leaves wheel 1 where it is.
\<close>

theorem processCharacter_example_stepping:
  "atNotch (wheels twoWheelMachine ! 0) = False \<and>
   wheelPositions twoWheelMachine = [0, 0] \<and>
   wheelPositions (fst (processCharacter toUpperCaseLatin1 twoWheelMachine ''A'' ''X'')) = [1, 1] \<and>
   atNotch (wheels (fst (processCharacter toUpperCaseLatin1 twoWheelMachine ''A'' ''X'')) ! 0) = True \<and>
   wheelPositions (fst (processCharacter toUpperCaseLatin1 (fst (processCharacter toUpperCaseLatin1 twoWheelMachine ''A'' ''X''))
                          ''A'' ''X'')) = [2, 1]"
proof -
  have a: "atNotch (wheels twoWheelMachine ! 0) = False" by code_simp
  have b: "wheelPositions twoWheelMachine = [0, 0]" by code_simp
  have c: "wheelPositions (fst (processCharacter toUpperCaseLatin1 twoWheelMachine ''A'' ''X'')) = [1, 1]"
    by code_simp
  have d: "atNotch (wheels (fst (processCharacter toUpperCaseLatin1 twoWheelMachine ''A'' ''X'')) ! 0) = True"
    by code_simp
  have e: "wheelPositions (fst (processCharacter toUpperCaseLatin1 (fst (processCharacter toUpperCaseLatin1 twoWheelMachine ''A'' ''X''))
                          ''A'' ''X'')) = [2, 1]"
    by code_simp
  show ?thesis using a b c d e by blast
qed

section \<open>Validation, reset and malformed input\<close>

text \<open>
  For every machine: an entry wheel without a duplicate makes \<^verbatim>\<open>validate()\<close> raise; a
  reflector installed makes \<^verbatim>\<open>reset()\<close> raise; and \<^verbatim>\<open>processCharacter\<close> reads only
  the first symbol of its input.
\<close>

lemma findDuplicates_distinct: "distinct xs \<Longrightarrow> findDuplicates xs = []"
  by (auto simp: findDuplicates_def filter_empty_conv in_set_conv_nth nth_eq_iff_index_eq)

lemma Stator_validate_distinct: "distinct (mapping s) \<Longrightarrow> Stator_validate s = None"
  by (simp add: Stator_validate_def findDuplicates_distinct)

lemma Machine_validate_distinct:
  "distinct (mapping (entryWheel m)) \<Longrightarrow> Machine_validate m = Inl NotIterable"
  by (simp add: Machine_validate_def Stator_validate_distinct)

lemma Machine_reset_reflector:
  "reflector m = Some r \<Longrightarrow>
   Machine_reset m = (m\<lparr>wheels := map Wheel_reset (wheels m)\<rparr>, Inl NotAFunction)"
  by (simp add: Machine_reset_def)

lemma processCharacter_first_symbol:
  "outputOf (processCharacter up m (c # cs) u) = outputOf (processCharacter up m [c] u)"
proof (cases "reflector m")
  case None
  then show ?thesis by (simp add: processCharacter_None)
next
  case (Some ukw)
  show ?thesis
  proof (cases "length (up [c]) = 1")
    case True
    then show ?thesis
      using processCharacter_output [where up=up and c=c and cs=cs and u=u, OF Some True]
        processCharacter_output [where up=up and c=c and cs="[]" and u=u, OF Some True]
      by simp
  next
    case False
    then show ?thesis
      using processCharacter_length [where up=up and c=c and cs=cs and u=u, OF Some False]
        processCharacter_length [where up=up and c=c and cs="[]" and u=u, OF Some False]
      by simp
  qed
qed

text \<open>
  C4. \<^verbatim>\<open>validate()\<close> should return the list of findings and never raise. On the
  example machine, which is valid, the entry wheel's \<^verbatim>\<open>validate()\<close> returns
  \<^verbatim>\<open>undefined\<close> and spreading it raises a TypeError.
\<close>

theorem Machine_validate_example_raises:
  "validMachine exampleMachine \<and>
   Stator_validate (entryWheel exampleMachine) = None \<and>
   Machine_validate exampleMachine = Inl NotIterable"
proof -
  have v: "validMachine exampleMachine" by code_simp
  have s: "Stator_validate (entryWheel exampleMachine) = None" by code_simp
  have m: "Machine_validate exampleMachine = Inl NotIterable" by code_simp
  show ?thesis using v s m by blast
qed

text \<open>
  C5. \<^verbatim>\<open>reset()\<close> should restore the wheels and the reflector to their starting
  positions and raise nothing. On the machine with the moving reflector, after one
  symbol, the wheel is at 0 and the reflector at 1; \<^verbatim>\<open>reset()\<close> puts the wheel back to
  3, then raises a TypeError, and the reflector stays at 1 with starting position 0.
\<close>

theorem Machine_reset_example_raises:
  "wheelPositions (fst (processCharacter toUpperCaseLatin1 movingMachine ''A'' ''X'')) = [0] \<and>
   map_option r_position (reflector (fst (processCharacter toUpperCaseLatin1 movingMachine ''A'' ''X''))) = Some 1 \<and>
   snd (Machine_reset (fst (processCharacter toUpperCaseLatin1 movingMachine ''A'' ''X''))) = Inl NotAFunction \<and>
   wheelPositions (fst (Machine_reset (fst (processCharacter toUpperCaseLatin1 movingMachine ''A'' ''X'')))) = [3] \<and>
   map_option r_position
     (reflector (fst (Machine_reset (fst (processCharacter toUpperCaseLatin1 movingMachine ''A'' ''X''))))) = Some 1 \<and>
   map_option r_startingPosition
     (reflector (fst (Machine_reset (fst (processCharacter toUpperCaseLatin1 movingMachine ''A'' ''X''))))) = Some 0"
proof -
  have a: "wheelPositions (fst (processCharacter toUpperCaseLatin1 movingMachine ''A'' ''X'')) = [0]" by code_simp
  have b: "map_option r_position (reflector (fst (processCharacter toUpperCaseLatin1 movingMachine ''A'' ''X''))) =
      Some 1" by code_simp
  have c: "snd (Machine_reset (fst (processCharacter toUpperCaseLatin1 movingMachine ''A'' ''X''))) =
      Inl NotAFunction" by code_simp
  have d: "wheelPositions (fst (Machine_reset (fst (processCharacter toUpperCaseLatin1 movingMachine ''A'' ''X'')))) =
      [3]" by code_simp
  have e: "map_option r_position
      (reflector (fst (Machine_reset (fst (processCharacter toUpperCaseLatin1 movingMachine ''A'' ''X''))))) = Some 1"
    by code_simp
  have f: "map_option r_startingPosition
      (reflector (fst (Machine_reset (fst (processCharacter toUpperCaseLatin1 movingMachine ''A'' ''X''))))) = Some 0"
    by code_simp
  show ?thesis using a b c d e f by blast
qed

text \<open>
  C6. \<^verbatim>\<open>processCharacter("")\<close> and \<^verbatim>\<open>processCharacter("AB")\<close> should both raise
  the input-length error. The code takes \<^verbatim>\<open>char[0]\<close> before it checks the length: on
  \<^verbatim>\<open>""\<close> reading \<^verbatim>\<open>toUpperCase\<close> of \<^verbatim>\<open>undefined\<close> raises a TypeError, and on
  \<^verbatim>\<open>"AB"\<close> the code encodes \<open>A\<close> and returns.
\<close>

theorem processCharacter_example_malformed_input:
  "snd (processCharacter toUpperCaseLatin1 exampleMachine [] ''X'') = Inl UndefinedProperty \<and>
   outputOf (processCharacter toUpperCaseLatin1 exampleMachine ''AB'' ''X'') = Inr ''B'' \<and>
   outputOf (processCharacter toUpperCaseLatin1 exampleMachine ''AB'' ''X'') =
     outputOf (processCharacter toUpperCaseLatin1 exampleMachine ''A'' ''X'')"
proof -
  have a: "snd (processCharacter toUpperCaseLatin1 exampleMachine [] ''X'') = Inl UndefinedProperty" by code_simp
  have b: "outputOf (processCharacter toUpperCaseLatin1 exampleMachine ''AB'' ''X'') = Inr ''B''" by code_simp
  have c: "outputOf (processCharacter toUpperCaseLatin1 exampleMachine ''A'' ''X'') = Inr ''B''" by code_simp
  show ?thesis using a b c by simp
qed

section \<open>processMessage\<close>

lemma foldStep_error: "foldl (foldStep up u) (m, Inl e) msg = (m, Inl e)"
  by (induction msg) (simp_all add: foldStep_def)

lemma mapChars_fold:
  "joined (mapChars up m (map (\<lambda>c. [c]) msg) u outs traces) =
     foldl (foldStep up u) (m, Inr (concat outs, traces)) msg"
proof (induction msg arbitrary: m outs traces)
  case Nil
  then show ?case by (simp add: joined_def)
next
  case (Cons c msg)
  obtain m' r where p: "processCharacter up m [c] u = (m', r)"
    by (cases "processCharacter up m [c] u") auto
  show ?case
  proof (cases r)
    case (Inl e)
    have "foldStep up u (m, Inr (concat outs, traces)) c = (m', Inl e)"
      using p Inl by (simp add: foldStep_def)
    then show ?thesis using p Inl by (simp add: joined_def foldStep_error)
  next
    case (Inr ot)
    obtain out trace where ot: "ot = (out, trace)" by (cases ot) auto
    have "foldStep up u (m, Inr (concat outs, traces)) c =
        (m', Inr (concat outs @ out, traces @ [trace]))"
      using p Inr ot by (simp add: foldStep_def)
    then show ?thesis
      using p Inr ot Cons.IH [of m' "outs @ [out]" "traces @ [trace]"]
      by simp
  qed
qed

lemma processMessage_eq_fold: "processMessage up m msg u = processMessage_fold up m msg u"
proof (cases msg)
  case Nil
  then show ?thesis by (simp add: processMessage_def processMessage_fold_def)
next
  case (Cons c cs)
  have "processMessage up m msg u = joined (mapChars up m (map (\<lambda>c. [c]) msg) u [] [])"
    using Cons by (simp add: processMessage_def joined_def)
  then show ?thesis
    using mapChars_fold [of up m msg u "[]" "[]"] by (simp add: processMessage_fold_def)
qed

text \<open>
  Whenever the fold returns, it has added one trace per symbol.
\<close>

lemma fold_trace_count:
  "foldl (foldStep up u) (m, Inr (acc, traces)) msg = (m', Inr (out, trs)) \<Longrightarrow>
   length trs = length traces + length msg"
proof (induction msg arbitrary: m acc traces)
  case Nil
  then show ?case by simp
next
  case (Cons c msg)
  obtain m1 r where p: "processCharacter up m [c] u = (m1, r)"
    by (cases "processCharacter up m [c] u") auto
  show ?case
  proof (cases r)
    case (Inl e)
    have "foldStep up u (m, Inr (acc, traces)) c = (m1, Inl e)"
      using p Inl by (simp add: foldStep_def)
    then have "foldl (foldStep up u) (m, Inr (acc, traces)) (c # msg) = (m1, Inl e)"
      by (simp add: foldStep_error)
    then show ?thesis using Cons.prems by simp
  next
    case (Inr ot)
    obtain o1 t1 where ot: "ot = (o1, t1)" by (cases ot) auto
    have s: "foldStep up u (m, Inr (acc, traces)) c = (m1, Inr (acc @ o1, traces @ [t1]))"
      using p Inr ot by (simp add: foldStep_def)
    have "foldl (foldStep up u) (m1, Inr (acc @ o1, traces @ [t1])) msg = (m', Inr (out, trs))"
      using Cons.prems s by simp
    then have "length trs = length (traces @ [t1]) + length msg"
      by (rule Cons.IH)
    then show ?thesis by simp
  qed
qed

text \<open>
  With a reflector installed the fold returns when the upper-case form of every symbol
  is one code unit long, and raises the input-length error at the first symbol for
  which it is not.
\<close>

lemma fold_succeeds:
  "reflector m = Some ukw \<Longrightarrow> list_all (\<lambda>c. length (up [c]) = 1) msg \<Longrightarrow>
   \<exists>m' out trs. foldl (foldStep up u) (m, Inr (acc, traces)) msg = (m', Inr (out, trs))"
proof (induction msg arbitrary: m ukw acc traces)
  case Nil
  then show ?case by simp
next
  case (Cons c msg)
  have len: "length (up [c]) = 1" and rest: "list_all (\<lambda>c. length (up [c]) = 1) msg"
    using Cons.prems(2) by simp_all
  obtain out t where p: "processCharacter up m [c] u =
      (m\<lparr>wheels := advanceWheels (wheels m), reflector := Some (advanceReflector ukw)\<rparr>,
       Inr (out, t))"
    using processCharacter_succeeds [where up=up and c=c and cs="[]" and u=u, OF Cons.prems(1) len] by blast
  let ?m1 = "m\<lparr>wheels := advanceWheels (wheels m), reflector := Some (advanceReflector ukw)\<rparr>"
  have s: "foldStep up u (m, Inr (acc, traces)) c = (?m1, Inr (acc @ out, traces @ [t]))"
    using p by (simp add: foldStep_def)
  have r: "reflector ?m1 = Some (advanceReflector ukw)" by simp
  obtain m' out' trs where
    "foldl (foldStep up u) (?m1, Inr (acc @ out, traces @ [t])) msg = (m', Inr (out', trs))"
    using Cons.IH [OF r rest, of "acc @ out" "traces @ [t]"] by blast
  then show ?case using s by simp
qed

lemma fold_input_length:
  "reflector m = Some ukw \<Longrightarrow> \<not> list_all (\<lambda>c. length (up [c]) = 1) msg \<Longrightarrow>
   \<exists>m'. foldl (foldStep up u) (m, Inr (acc, traces)) msg = (m', Inl InputLength)"
proof (induction msg arbitrary: m ukw acc traces)
  case Nil
  then show ?case by simp
next
  case (Cons c msg)
  show ?case
  proof (cases "length (up [c]) = 1")
    case False
    have "foldStep up u (m, Inr (acc, traces)) c = (m, Inl InputLength)"
      using processCharacter_length [where up=up and c=c and cs="[]" and u=u, OF Cons.prems(1) False]
      by (simp add: foldStep_def)
    then show ?thesis by (simp add: foldStep_error)
  next
    case True
    then have rest: "\<not> list_all (\<lambda>c. length (up [c]) = 1) msg"
      using Cons.prems(2) by simp
    obtain out t where p: "processCharacter up m [c] u =
        (m\<lparr>wheels := advanceWheels (wheels m), reflector := Some (advanceReflector ukw)\<rparr>,
         Inr (out, t))"
      using processCharacter_succeeds [where up=up and c=c and cs="[]" and u=u, OF Cons.prems(1) True] by blast
    let ?m1 = "m\<lparr>wheels := advanceWheels (wheels m), reflector := Some (advanceReflector ukw)\<rparr>"
    have s: "foldStep up u (m, Inr (acc, traces)) c = (?m1, Inr (acc @ out, traces @ [t]))"
      using p by (simp add: foldStep_def)
    have r: "reflector ?m1 = Some (advanceReflector ukw)" by simp
    obtain m' where
      "foldl (foldStep up u) (?m1, Inr (acc @ out, traces @ [t])) msg = (m', Inl InputLength)"
      using Cons.IH [OF r rest, of "acc @ out" "traces @ [t]"] by blast
    then show ?thesis using s by simp
  qed
qed

lemma fold_no_reflector:
  "reflector m = None \<Longrightarrow>
   foldl (foldStep up u) (m, Inr (acc, traces)) (c # msg) = (m, Inl NoReflector)"
  by (simp add: foldStep_def processCharacter_None foldStep_error)

text \<open>
  C8. \<^verbatim>\<open>processMessage("")\<close> returns the empty input with an empty trace list and
  leaves the machine as it is, reflector or not. For every input, \<^verbatim>\<open>processMessage\<close>
  is the fold of \<^verbatim>\<open>processCharacter\<close> over the symbols in order, with the output
  symbols concatenated, and whenever it returns, it returns exactly one trace per input
  symbol. It returns when a reflector is installed and the upper-case form of every
  symbol is one code unit long; otherwise, on a non-empty input, it raises what
  \<^verbatim>\<open>processCharacter\<close> raises: the no-reflector error, or the input-length error at
  the first symbol whose upper-case form is not one code unit long.
\<close>

theorem processMessage_is_fold:
  "processMessage up m [] u = (m, Inr ([], [])) \<and>
   processMessage up m msg u = processMessage_fold up m msg u \<and>
   (\<forall>m' out trs. processMessage up m msg u = (m', Inr (out, trs)) \<longrightarrow>
      length trs = length msg) \<and>
   (case reflector m of
      None \<Rightarrow>
        processMessage up m msg u = (m, if msg = [] then Inr ([], []) else Inl NoReflector)
    | Some ukw \<Rightarrow>
        (if list_all (\<lambda>c. length (up [c]) = 1) msg
         then (\<exists>m' out trs. processMessage up m msg u = (m', Inr (out, trs)))
         else (\<exists>m'. processMessage up m msg u = (m', Inl InputLength))))"
proof -
  have e: "processMessage up m [] u = (m, Inr ([], []))"
    by (simp add: processMessage_def)
  have f: "processMessage up m msg u = processMessage_fold up m msg u"
    by (rule processMessage_eq_fold)
  have n: "\<forall>m' out trs. processMessage up m msg u = (m', Inr (out, trs)) \<longrightarrow>
      length trs = length msg"
  proof (intro allI impI)
    fix m' out trs
    assume "processMessage up m msg u = (m', Inr (out, trs))"
    then have "foldl (foldStep up u) (m, Inr ([], [])) msg = (m', Inr (out, trs))"
      using f by (simp add: processMessage_fold_def)
    then have "length trs = length ([] :: 'a Trace list) + length msg"
      by (rule fold_trace_count)
    then show "length trs = length msg" by simp
  qed
  have c: "case reflector m of
      None \<Rightarrow>
        processMessage up m msg u = (m, if msg = [] then Inr ([], []) else Inl NoReflector)
    | Some ukw \<Rightarrow>
        (if list_all (\<lambda>c. length (up [c]) = 1) msg
         then (\<exists>m' out trs. processMessage up m msg u = (m', Inr (out, trs)))
         else (\<exists>m'. processMessage up m msg u = (m', Inl InputLength)))"
  proof (cases "reflector m")
    case None
    show ?thesis
    proof (cases msg)
      case Nil
      then show ?thesis using None e by simp
    next
      case (Cons c cs)
      have "processMessage_fold up m msg u = (m, Inl NoReflector)"
        using Cons fold_no_reflector [OF None, of up u "[]" "[]" c cs]
        by (simp add: processMessage_fold_def)
      then have "processMessage up m msg u = (m, Inl NoReflector)"
        using f by simp
      then show ?thesis using None Cons by simp
    qed
  next
    case (Some ukw)
    show ?thesis
    proof (cases "list_all (\<lambda>c. length (up [c]) = 1) msg")
      case True
      have "\<exists>m' out trs. processMessage_fold up m msg u = (m', Inr (out, trs))"
        using fold_succeeds [OF Some True, of u "[]" "[]"]
        by (simp add: processMessage_fold_def)
      then have "\<exists>m' out trs. processMessage up m msg u = (m', Inr (out, trs))"
        using f by simp
      then show ?thesis using Some True by simp
    next
      case False
      have "\<exists>m'. processMessage_fold up m msg u = (m', Inl InputLength)"
        using fold_input_length [OF Some False, of u "[]" "[]"]
        by (simp add: processMessage_fold_def)
      then have "\<exists>m'. processMessage up m msg u = (m', Inl InputLength)"
        using f by simp
      then show ?thesis using Some False by simp
    qed
  qed
  show ?thesis using e f n c by blast
qed

theorem processMessage_is_fold_witness:
  "reflector exampleMachine = Some exampleReflector \<and>
   list_all (\<lambda>c. length (toUpperCaseLatin1 [c]) = 1) ''AB'' \<and>
   outputOf (processMessage_fold toUpperCaseLatin1 exampleMachine ''AB'' ''X'') = Inr ''BA'' \<and>
   outputOf (processMessage toUpperCaseLatin1 exampleMachine ''AB'' ''X'') = Inr ''BA'' \<and>
   (\<exists>m' out trs.
      processMessage toUpperCaseLatin1 exampleMachine ''AB'' ''X'' = (m', Inr (out, trs)) \<and>
      length trs = length ''AB'')"
proof -
  have r: "reflector exampleMachine = Some exampleReflector"
    by (simp add: exampleMachine_def)
  have l: "list_all (\<lambda>c. length (toUpperCaseLatin1 [c]) = 1) ''AB''"
    by code_simp
  have f: "outputOf (processMessage_fold toUpperCaseLatin1 exampleMachine ''AB'' ''X'') = Inr ''BA''"
    by code_simp
  have t1: "processMessage toUpperCaseLatin1 exampleMachine ''AB'' ''X'' =
             processMessage_fold toUpperCaseLatin1 exampleMachine ''AB'' ''X''"
    using processMessage_is_fold
      [where up=toUpperCaseLatin1 and m=exampleMachine and u="''X''" and msg="''AB''"] by blast
  have t2: "\<forall>m' out trs.
      processMessage toUpperCaseLatin1 exampleMachine ''AB'' ''X'' = (m', Inr (out, trs)) \<longrightarrow>
      length trs = length ''AB''"
    using processMessage_is_fold
      [where up=toUpperCaseLatin1 and m=exampleMachine and u="''X''" and msg="''AB''"] by blast
  have t3: "case reflector exampleMachine of
      None \<Rightarrow>
        processMessage toUpperCaseLatin1 exampleMachine ''AB'' ''X'' =
          (exampleMachine, if ''AB'' = [] then Inr ([], []) else Inl NoReflector)
    | Some ukw \<Rightarrow>
        (if list_all (\<lambda>c. length (toUpperCaseLatin1 [c]) = 1) ''AB''
         then (\<exists>m' out trs.
                 processMessage toUpperCaseLatin1 exampleMachine ''AB'' ''X'' = (m', Inr (out, trs)))
         else (\<exists>m'. processMessage toUpperCaseLatin1 exampleMachine ''AB'' ''X'' =
                 (m', Inl InputLength)))"
    using processMessage_is_fold
      [where up=toUpperCaseLatin1 and m=exampleMachine and u="''X''" and msg="''AB''"] by blast
  obtain m' out trs where
    p: "processMessage toUpperCaseLatin1 exampleMachine ''AB'' ''X'' = (m', Inr (out, trs))"
    using t3 l unfolding r by auto
  have c: "length trs = length ''AB''" using t2 p by blast
  have o: "outputOf (processMessage toUpperCaseLatin1 exampleMachine ''AB'' ''X'') = Inr ''BA''"
    using t1 f by simp
  show ?thesis using r l f o p c by blast
qed

text \<open>
  A message with a symbol whose upper-case form is two code units long: the call raises
  the input-length error at that symbol, after the first symbol has moved the wheel.
\<close>

lemma processMessage_example_sharp_s:
  "snd (processMessage toUpperCaseLatin1 exampleMachine [CHR ''A'', CHR 0xDF, CHR ''B''] ''X'') =
     Inl InputLength \<and>
   wheelPositions
     (fst (processMessage toUpperCaseLatin1 exampleMachine [CHR ''A'', CHR 0xDF, CHR ''B''] ''X'')) =
     [0]"
proof -
  have a: "snd (processMessage toUpperCaseLatin1 exampleMachine
                  [CHR ''A'', CHR 0xDF, CHR ''B''] ''X'') = Inl InputLength"
    by code_simp
  have b: "wheelPositions
     (fst (processMessage toUpperCaseLatin1 exampleMachine [CHR ''A'', CHR 0xDF, CHR ''B''] ''X'')) =
     [0]"
    by code_simp
  show ?thesis using a b by blast
qed

section \<open>Case\<close>

lemma processCharacter_same_upper_output:
  "up [c] = up [d] \<Longrightarrow>
   outputOf (processCharacter up m (c # cs) u) = outputOf (processCharacter up m (d # ds) u)"
proof (cases "reflector m")
  case None
  then show ?thesis by (simp add: processCharacter_None)
next
  case (Some ukw)
  assume eq: "up [c] = up [d]"
  show ?thesis
  proof (cases "length (up [c]) = 1")
    case True
    then have d: "length (up [d]) = 1" using eq by simp
    show ?thesis
      using eq processCharacter_output [where up=up and c=c and cs=cs and u=u, OF Some True]
        processCharacter_output [where up=up and c=d and cs=ds and u=u, OF Some d]
      by simp
  next
    case False
    then have d: "length (up [d]) \<noteq> 1" using eq by simp
    show ?thesis
      using processCharacter_length [where up=up and c=c and cs=cs and u=u, OF Some False]
        processCharacter_length [where up=up and c=d and cs=ds and u=u, OF Some d]
      by simp
  qed
qed

lemma processCharacter_same_upper_state:
  "up [c] = up [d] \<Longrightarrow>
   fst (processCharacter up m (c # cs) u) = fst (processCharacter up m (d # ds) u)"
proof (cases "reflector m")
  case None
  then show ?thesis by (simp add: processCharacter_None)
next
  case (Some ukw)
  assume eq: "up [c] = up [d]"
  show ?thesis
  proof (cases "length (up [c]) = 1")
    case True
    then have d: "length (up [d]) = 1" using eq by simp
    show ?thesis
      using eq processCharacter_state [where up=up and c=c and cs=cs and u=u, OF Some True]
        processCharacter_state [where up=up and c=d and cs=ds and u=u, OF Some d]
      by simp
  next
    case False
    then have d: "length (up [d]) \<noteq> 1" using eq by simp
    show ?thesis
      using processCharacter_length [where up=up and c=c and cs=cs and u=u, OF Some False]
        processCharacter_length [where up=up and c=d and cs=ds and u=u, OF Some d]
      by simp
  qed
qed

text \<open>
  C10, as stated: on every machine, \<^verbatim>\<open>processCharacter\<close> on a lower-case
  letter and on its upper-case form return the same output symbol. It fails on the M3
  at the letter \<open>\<ss>\<close>, whose upper-case form is \<open>SS\<close>: on \<open>\<ss>\<close> the call raises the
  input-length error, and on \<open>SS\<close> it returns the encoding of \<open>S\<close>.
\<close>

theorem processCharacter_case_counterexample:
  "toUpperCaseLatin1 [CHR 0xDF] = ''SS'' \<and>
   outputOf (processCharacter toUpperCaseLatin1 m3Machine [CHR 0xDF] ''X'') = Inl InputLength \<and>
   outputOf (processCharacter toUpperCaseLatin1 m3Machine (toUpperCaseLatin1 [CHR 0xDF]) ''X'') =
     Inr ''U'' \<and>
   outputOf (processCharacter toUpperCaseLatin1 m3Machine [CHR 0xDF] ''X'') \<noteq>
     outputOf (processCharacter toUpperCaseLatin1 m3Machine (toUpperCaseLatin1 [CHR 0xDF]) ''X'')"
proof -
  have a: "toUpperCaseLatin1 [CHR 0xDF] = ''SS''" by code_simp
  have b: "outputOf (processCharacter toUpperCaseLatin1 m3Machine [CHR 0xDF] ''X'') =
      Inl InputLength" by code_simp
  have c: "outputOf (processCharacter toUpperCaseLatin1 m3Machine
                       (toUpperCaseLatin1 [CHR 0xDF]) ''X'') = Inr ''U''" by code_simp
  show ?thesis using a b c by simp
qed

text \<open>
  C10, amended. A machine the constructor builds stores its alphabet upper-cased,
  whatever the case of the argument, and its number of characters is the length of the
  upper-cased alphabet. On every machine, in whatever state, and for every letter whose
  upper-case form is a single code unit that upper-casing leaves as it is,
  \<^verbatim>\<open>processCharacter\<close> on the letter and on its upper-case form return the same output
  symbol and leave the machine in the same state.
\<close>

theorem processCharacter_case_insensitive:
  assumes "Machine_new up lbl alph etw whls ukw plug = Inr m'"
    and "up [c] = [C]" and "up [C] = [C]"
  shows "alphabet m' = up alph \<and>
         numCharacters m' = int (length (up alph)) \<and>
         outputOf (processCharacter up m [c] u) = outputOf (processCharacter up m (up [c]) u) \<and>
         fst (processCharacter up m [c] u) = fst (processCharacter up m (up [c]) u)"
proof -
  have a: "alphabet m' = up alph \<and> numCharacters m' = int (length (up alph))"
    using assms(1) by (auto simp: Machine_new_def split: if_splits)
  have eq: "up [c] = up [C]" using assms(2,3) by simp
  have o: "outputOf (processCharacter up m [c] u) = outputOf (processCharacter up m [C] u)"
    using eq by (rule processCharacter_same_upper_output)
  have s: "fst (processCharacter up m [c] u) = fst (processCharacter up m [C] u)"
    using eq by (rule processCharacter_same_upper_state)
  show ?thesis using a o s assms(2) by simp
qed

theorem processCharacter_case_insensitive_witness:
  "Machine_new toUpperCaseLatin1 ''Nordic'' [CHR ''a'', CHR ''b'', CHR ''c'', CHR 0xE5]
     exampleStator (Some [exampleWheel]) (Some exampleReflector) None = Inr nordicMachine \<and>
   toUpperCaseLatin1 [CHR 0xE5] = [CHR 0xC5] \<and>
   toUpperCaseLatin1 [CHR 0xC5] = [CHR 0xC5] \<and>
   alphabet nordicMachine = [CHR ''A'', CHR ''B'', CHR ''C'', CHR 0xC5] \<and>
   numCharacters nordicMachine = 4 \<and>
   outputOf (processCharacter toUpperCaseLatin1 nordicMachine [CHR 0xC5] ''A'') = Inr ''A'' \<and>
   outputOf (processCharacter toUpperCaseLatin1 nordicMachine [CHR 0xE5] ''A'') = Inr ''A''"
proof -
  have h: "Machine_new toUpperCaseLatin1 ''Nordic'' [CHR ''a'', CHR ''b'', CHR ''c'', CHR 0xE5]
     exampleStator (Some [exampleWheel]) (Some exampleReflector) None = Inr nordicMachine"
    by code_simp
  have l: "toUpperCaseLatin1 [CHR 0xE5] = [CHR 0xC5]" by code_simp
  have u: "toUpperCaseLatin1 [CHR 0xC5] = [CHR 0xC5]" by code_simp
  have al: "alphabet nordicMachine = [CHR ''A'', CHR ''B'', CHR ''C'', CHR 0xC5]"
    by (simp add: nordicMachine_def)
  have n: "numCharacters nordicMachine = 4" by (simp add: nordicMachine_def)
  have o: "outputOf (processCharacter toUpperCaseLatin1 nordicMachine [CHR 0xC5] ''A'') = Inr ''A''"
    by code_simp
  have t: "outputOf (processCharacter toUpperCaseLatin1 nordicMachine [CHR 0xE5] ''A'') =
      outputOf (processCharacter toUpperCaseLatin1 nordicMachine (toUpperCaseLatin1 [CHR 0xE5]) ''A'')"
    using processCharacter_case_insensitive [OF h l u, of nordicMachine "''A''"] by blast
  show ?thesis using h l u al n o t by simp
qed

end
